theory Spec2Isabelle
  imports Complex_Main
begin

section \<open>The user store of the REST example\<close>

text \<open>
  The repository holds one piece of logic, the class \<open>UserService\<close>, in two variants:
  \<^item> the base variant of \<^verbatim>\<open>src/users/user.service.ts\<close>, whose only field is the array
    \<open>users\<close> and whose \<open>create\<close> derives the new id from the array's length;
  \<^item> the DTO variant listed in \<^verbatim>\<open>readme2.md\<close>, which adds the field \<open>idCounter\<close>
    (initially 1), builds a new record by spreading the DTO it is given after the
    counter's value, and merges a DTO into a stored record in \<open>update\<close>.

  Every method mutates \<open>this.users\<close> in place; here each method takes the service state
  and returns its result together with the state after the call. The methods that only
  read (\<open>findAll\<close>, \<open>findOne\<close>) return their result alone.

  Numbers in the base variant: an id is a TypeScript \<open>number\<close>. The ids the base store
  assigns are \<open>length + 1\<close>, so they are integers, and they are modelled as \<open>int\<close>;
  \<open>===\<close> on them is equality. An argument that is not an integer (or is NaN) equals no
  stored id and behaves as an integer that is absent from the store. Lists are unbounded.
\<close>

subsection \<open>Records of the base variant\<close>

text \<open>\<^verbatim>\<open>interface User { id: number; name: string; email: string; }\<close>\<close>

record User =
  user_id :: int
  name :: string
  email :: string

text \<open>
  The state of the base service is the array \<open>users\<close>. \<open>findAll\<close>, \<open>findOne\<close> and
  \<open>remove\<close> below touch no other field and are defined over every extension of this
  record.
\<close>

record UserService =
  users :: "User list"

definition init :: UserService where
  "init = \<lparr>users = []\<rparr>"

subsection \<open>The array methods the service calls\<close>

text \<open>
  \<open>Array.prototype.findIndex\<close>: the index of the first element satisfying the
  predicate, \<open>-1\<close> when there is none.
\<close>

fun findIndex :: "('a \<Rightarrow> bool) \<Rightarrow> 'a list \<Rightarrow> int" where
  "findIndex P [] = - 1"
| "findIndex P (x # xs) =
     (if P x then 0
      else (let r = findIndex P xs in if r = - 1 then - 1 else r + 1))"

text \<open>
  \<open>Array.prototype.splice(start, deleteCount)\<close>, the array it leaves behind: a negative
  \<open>start\<close> counts from the end, and both arguments are clamped to the array.
\<close>

definition array_splice :: "int \<Rightarrow> int \<Rightarrow> 'a list \<Rightarrow> 'a list" where
  "array_splice start deleteCount xs =
     (let len = int (length xs);
          from = (if start < 0 then max (len + start) 0 else min start len);
          cnt = min (max deleteCount 0) (len - from)
      in take (nat from) xs @ drop (nat (from + cnt)) xs)"

text \<open>
  \<open>Array.prototype.find\<close> is \<^const>\<open>List.find\<close>: the first element satisfying the
  predicate, \<open>None\<close> for JavaScript's \<open>undefined\<close>. In the results of \<open>update\<close>,
  \<open>None\<close> stands for the \<open>null\<close> it returns.
\<close>

subsection \<open>The base variant\<close>

text \<open>
  \<^verbatim>\<open>
  create(name: string, email: string): User {
    const user = { id: this.users.length + 1, name, email };
    this.users.push(user);
    return user;
  }
  \<close>
\<close>

definition create :: "string \<Rightarrow> string \<Rightarrow> UserService \<Rightarrow> User \<times> UserService" where
  "create n e s =
     (let user = \<lparr>user_id = int (length (users s)) + 1, name = n, email = e\<rparr>
      in (user, s\<lparr>users := users s @ [user]\<rparr>))"

text \<open>\<^verbatim>\<open>findAll(): User[] { return this.users; }\<close>\<close>

definition findAll :: "'a UserService_scheme \<Rightarrow> User list" where
  "findAll s = users s"

text \<open>\<^verbatim>\<open>findOne(id) { return this.users.find((user) => user.id === id); }\<close>\<close>

definition findOne :: "int \<Rightarrow> 'a UserService_scheme \<Rightarrow> User option" where
  "findOne i s = find (\<lambda>user. user_id user = i) (users s)"

text \<open>
  \<^verbatim>\<open>
  update(id: number, name: string, email: string): User {
    const userIndex = this.users.findIndex((user) => user.id === id);
    if (userIndex !== -1) {
      this.users[userIndex] = { id, name, email };
      return this.users[userIndex];
    }
    return null;
  }
  \<close>
  The index written and read is the one \<open>findIndex\<close> returned, which lies inside the
  array whenever it is not \<open>-1\<close> (lemma \<open>findIndex_range\<close> below).
\<close>

definition update :: "int \<Rightarrow> string \<Rightarrow> string \<Rightarrow> UserService \<Rightarrow> User option \<times> UserService" where
  "update i n e s =
     (let userIndex = findIndex (\<lambda>user. user_id user = i) (users s)
      in if userIndex \<noteq> - 1
         then (let us = (users s)[nat userIndex := \<lparr>user_id = i, name = n, email = e\<rparr>]
               in (Some (us ! nat userIndex), s\<lparr>users := us\<rparr>))
         else (None, s))"

text \<open>
  \<^verbatim>\<open>
  remove(id: number): boolean {
    const userIndex = this.users.findIndex((user) => user.id === id);
    if (userIndex !== -1) {
      this.users.splice(userIndex, 1);
      return true;
    }
    return false;
  }
  \<close>
\<close>

definition remove :: "int \<Rightarrow> 'a UserService_scheme \<Rightarrow> bool \<times> 'a UserService_scheme" where
  "remove i s =
     (let userIndex = findIndex (\<lambda>user. user_id user = i) (users s)
      in if userIndex \<noteq> - 1
         then (True, s\<lparr>users := array_splice userIndex 1 (users s)\<rparr>)
         else (False, s))"

subsection \<open>JavaScript values and objects\<close>

text \<open>
  The DTO variant copies whatever own properties a DTO has. The classes
  \<^verbatim>\<open>CreateUserDto { name: string; email: string; }\<close> and
  \<^verbatim>\<open>UpdateUserDto { name?: string; email?: string; }\<close> name the properties a DTO is
  meant to have, but typing is structural and the validation pipe is installed without a
  whitelist, so an object with further properties (an \<open>id\<close> among them), or with a
  property present and \<open>undefined\<close>, reaches the service as well. A DTO and a stored
  record are therefore objects: maps from the names of their own properties to values.
  (Spreading \<open>null\<close> or \<open>undefined\<close> copies nothing, as spreading the empty object.)

  A number is an IEEE double: a finite one is a rational, and there are the two
  infinities and NaN. A value that is an object, array or function is a reference, which
  the service only copies.
\<close>

datatype js_number = Finite rat | PosInfinity | NegInfinity | NaN

datatype js_value =
    JSUndefined
  | JSNull
  | JSBoolean bool
  | JSNumber js_number
  | JSString string
  | JSReference nat

type_synonym js_object = "string \<rightharpoonup> js_value"

text \<open>The integer \<open>k\<close> as a JavaScript number.\<close>

definition js_int :: "int \<Rightarrow> js_value" where
  "js_int k = JSNumber (Finite (of_int k))"

text \<open>
  \<open>a === b\<close>: the same value, except that NaN is not equal to itself. (Zero and minus
  zero are the same rational, as they are equal under \<open>===\<close>.)
\<close>

definition strict_equals :: "js_value \<Rightarrow> js_value \<Rightarrow> bool" where
  "strict_equals a b \<longleftrightarrow> a = b \<and> a \<noteq> JSNumber NaN"

text \<open>
  The property read \<open>obj.p\<close>: the value of the own property, \<open>undefined\<close> when the
  object has none (the prototype of a plain object or of a DTO instance has no \<open>id\<close>,
  \<open>name\<close> or \<open>email\<close>).
\<close>

definition get_prop :: "js_object \<Rightarrow> string \<Rightarrow> js_value" where
  "get_prop obj p = (case obj p of None \<Rightarrow> JSUndefined | Some v \<Rightarrow> v)"

text \<open>
  An instance of \<open>CreateUserDto\<close> that has the two declared properties and no other.
\<close>

definition CreateUserDto :: "string \<Rightarrow> string \<Rightarrow> js_object" where
  "CreateUserDto n e = [''name'' \<mapsto> JSString n, ''email'' \<mapsto> JSString e]"

subsection \<open>The DTO variant\<close>

text \<open>
  \<^verbatim>\<open>
  private users: User[] = [];
  private idCounter = 1;
  \<close>
  The counter is only ever changed by \<open>this.idCounter++\<close>, so it runs through the
  integers from 1 upwards and is kept as an \<open>int\<close>.
\<close>

record UserServiceDto =
  users_dto :: "js_object list"
  idCounter :: int

definition init_dto :: UserServiceDto where
  "init_dto = \<lparr>users_dto = [], idCounter = 1\<rparr>"

text \<open>
  The value \<open>this.idCounter++\<close> leaves in the counter. Up to \<open>2 ^ 53\<close> every integer
  is a double, so the counter grows by one; \<open>2 ^ 53 + 1\<close> is not a double and rounds
  back to \<open>2 ^ 53\<close>, where the counter stays. (The counter never exceeds \<open>2 ^ 53\<close>:
  lemma \<open>idCounter_range\<close>.)
\<close>

definition post_increment :: "int \<Rightarrow> int" where
  "post_increment c = (if c < 2 ^ 53 then c + 1 else c)"

text \<open>
  \<^verbatim>\<open>
  create(createUserDto: CreateUserDto): UserResponseDto {
    const user = {
      id: this.idCounter++,
      ...createUserDto, // Combina el DTO con el id
    };
    this.users.push(user);
    return user; // Retorna el DTO de respuesta
  }
  \<close>
  The object literal first sets \<open>id\<close> to the counter's old value and then copies every
  own property of the DTO over it (\<open>++\<close> on maps: the right operand wins).
\<close>

definition create_dto :: "js_object \<Rightarrow> UserServiceDto \<Rightarrow> js_object \<times> UserServiceDto" where
  "create_dto createUserDto s =
     (let user = [''id'' \<mapsto> js_int (idCounter s)] ++ createUserDto
      in (user, s\<lparr>users_dto := users_dto s @ [user],
                   idCounter := post_increment (idCounter s)\<rparr>))"

text \<open>\<^verbatim>\<open>findAll(): UserResponseDto[] { return this.users; }\<close>\<close>

definition findAll_dto :: "UserServiceDto \<Rightarrow> js_object list" where
  "findAll_dto s = users_dto s"

text \<open>The callback \<^verbatim>\<open>(user) => user.id === id\<close>.\<close>

definition id_is :: "js_value \<Rightarrow> js_object \<Rightarrow> bool" where
  "id_is i user \<longleftrightarrow> strict_equals (get_prop user ''id'') i"

text \<open>\<^verbatim>\<open>findOne(id) { return this.users.find((user) => user.id === id); }\<close>\<close>

definition findOne_dto :: "js_value \<Rightarrow> UserServiceDto \<Rightarrow> js_object option" where
  "findOne_dto i s = find (id_is i) (users_dto s)"

text \<open>
  \<^verbatim>\<open>
  update(id: number, updateUserDto: UpdateUserDto): UserResponseDto {
    const userIndex = this.users.findIndex((user) => user.id === id);
    if (userIndex !== -1) {
      this.users[userIndex] = { ...this.users[userIndex], ...updateUserDto };
      return this.users[userIndex];
    }
    return null;
  }
  \<close>
  The object literal copies every own property of the stored record and then every own
  property of the DTO over it.
\<close>

definition update_dto ::
  "js_value \<Rightarrow> js_object \<Rightarrow> UserServiceDto \<Rightarrow> js_object option \<times> UserServiceDto" where
  "update_dto i updateUserDto s =
     (let userIndex = findIndex (id_is i) (users_dto s)
      in if userIndex \<noteq> - 1
         then (let us = (users_dto s)[nat userIndex :=
                          (users_dto s ! nat userIndex) ++ updateUserDto]
               in (Some (us ! nat userIndex), s\<lparr>users_dto := us\<rparr>))
         else (None, s))"

text \<open>
  \<^verbatim>\<open>
  remove(id: number): boolean {
    const userIndex = this.users.findIndex((user) => user.id === id);
    if (userIndex !== -1) {
      this.users.splice(userIndex, 1);
      return true;
    }
    return false;
  }
  \<close>
\<close>

definition remove_dto :: "js_value \<Rightarrow> UserServiceDto \<Rightarrow> bool \<times> UserServiceDto" where
  "remove_dto i s =
     (let userIndex = findIndex (id_is i) (users_dto s)
      in if userIndex \<noteq> - 1
         then (True, s\<lparr>users_dto := array_splice userIndex 1 (users_dto s)\<rparr>)
         else (False, s))"

subsection \<open>Sequences of calls\<close>

text \<open>
  A reachable state of a service is the state after some sequence of method calls on a
  fresh instance. \<open>exec\<close> is the effect of one call on the state, \<open>run\<close> the state after
  a sequence of calls from the initial state.
\<close>

datatype call =
    Create string string
  | FindAll
  | FindOne int
  | Update int string string
  | Remove int

fun exec :: "UserService \<Rightarrow> call \<Rightarrow> UserService" where
  "exec s (Create n e) = snd (create n e s)"
| "exec s FindAll = s"
| "exec s (FindOne i) = s"
| "exec s (Update i n e) = snd (update i n e s)"
| "exec s (Remove i) = snd (remove i s)"

definition run :: "call list \<Rightarrow> UserService" where
  "run cs = foldl exec init cs"

datatype call_dto =
    CreateDto js_object
  | FindAllDto
  | FindOneDto js_value
  | UpdateDto js_value js_object
  | RemoveDto js_value

fun exec_dto :: "UserServiceDto \<Rightarrow> call_dto \<Rightarrow> UserServiceDto" where
  "exec_dto s (CreateDto d) = snd (create_dto d s)"
| "exec_dto s FindAllDto = s"
| "exec_dto s (FindOneDto i) = s"
| "exec_dto s (UpdateDto i d) = snd (update_dto i d s)"
| "exec_dto s (RemoveDto i) = snd (remove_dto i s)"

definition run_dto :: "call_dto list \<Rightarrow> UserServiceDto" where
  "run_dto cs = foldl exec_dto init_dto cs"

subsection \<open>DTOs without an id, and the invariant they keep\<close>

text \<open>A call whose DTO, if it has one, has no own property \<open>id\<close>.\<close>

fun call_without_id :: "call_dto \<Rightarrow> bool" where
  "call_without_id (CreateDto d) = (d ''id'' = None)"
| "call_without_id (UpdateDto i d) = (d ''id'' = None)"
| "call_without_id c = True"

text \<open>
  The stored ids are pairwise distinct, and each is an integer between 1 and the counter,
  which is the next id to be given out.
\<close>

definition ids_below_counter :: "UserServiceDto \<Rightarrow> bool" where
  "ids_below_counter s \<longleftrightarrow>
     1 \<le> idCounter s \<and>
     distinct (map (\<lambda>u. get_prop u ''id'') (users_dto s)) \<and>
     (\<forall>u \<in> set (users_dto s). get_prop u ''id'' \<in> js_int ` {1..<idCounter s})"

section \<open>Properties of the array methods\<close>

lemma findIndex_lower: "- 1 \<le> findIndex P xs"
  by (induction xs) (simp_all add: Let_def)

lemma findIndex_none: "findIndex P xs = - 1 \<longleftrightarrow> (\<forall>x \<in> set xs. \<not> P x)"
proof (induction xs)
  case Nil
  show ?case by simp
next
  case (Cons x xs)
  have "findIndex P xs + 1 \<noteq> - 1"
    using findIndex_lower [of P xs] by arith
  with Cons show ?case by (auto simp: Let_def)
qed

lemma findIndex_range:
  "findIndex P xs \<noteq> - 1 \<Longrightarrow> 0 \<le> findIndex P xs \<and> nat (findIndex P xs) < length xs"
  by (induction xs) (auto simp: Let_def split: if_splits)

lemma findIndex_first:
  "\<forall>x \<in> set pre. \<not> P x \<Longrightarrow> P u \<Longrightarrow> findIndex P (pre @ u # post) = int (length pre)"
  by (induction pre) (auto simp: Let_def)

lemma find_first:
  "\<forall>x \<in> set pre. \<not> P x \<Longrightarrow> P u \<Longrightarrow> find P (pre @ u # post) = Some u"
  by (induction pre) auto

lemma array_splice_one:
  "array_splice (int (length pre)) 1 (pre @ u # post) = pre @ post"
proof -
  have "nat (int (length pre) + 1) = Suc (length pre)" by simp
  then show ?thesis by (simp add: array_splice_def Let_def)
qed

lemma first_match_split:
  "\<exists>x \<in> set xs. P x \<Longrightarrow>
     \<exists>pre u post. xs = pre @ u # post \<and> P u \<and> (\<forall>x \<in> set pre. \<not> P x)"
  by (metis split_list_first_prop)

lemmas svc_defs = create_def remove_def update_def findOne_def findAll_def array_splice_def
  init_def run_def Let_def

lemmas dto_defs = create_dto_def remove_dto_def update_dto_def findOne_dto_def findAll_dto_def
  array_splice_def init_dto_def run_dto_def Let_def js_int_def strict_equals_def get_prop_def
  id_is_def CreateUserDto_def post_increment_def

section \<open>Auxiliary facts about the base variant\<close>

subsection \<open>Ids absent from an array\<close>

lemma findIndex_absent:
  "i \<notin> user_id ` set xs \<Longrightarrow> findIndex (\<lambda>user. user_id user = i) xs = - 1"
  by (auto simp: findIndex_none)

lemma find_absent:
  "i \<notin> user_id ` set xs \<Longrightarrow> find (\<lambda>user. user_id user = i) xs = None"
  by (auto simp: find_None_iff)

lemma present_split:
  assumes "i \<in> user_id ` set xs"
  shows "\<exists>pre u post. xs = pre @ u # post \<and> user_id u = i \<and> (\<forall>x \<in> set pre. user_id x \<noteq> i)"
proof -
  from assms have "\<exists>x \<in> set xs. user_id x = i" by auto
  from first_match_split [of xs "\<lambda>x. user_id x = i", OF this] show ?thesis by blast
qed

subsection \<open>The first matching record\<close>

text \<open>
  The methods that take an id work on the first record carrying it: when the store is
  \<open>pre @ u # post\<close> and no record of \<open>pre\<close> has the id of \<open>u\<close>, they see \<open>u\<close>.
\<close>

lemma findOne_first:
  assumes "users s = pre @ u # post" and "\<forall>x \<in> set pre. user_id x \<noteq> user_id u"
  shows "findOne (user_id u) s = Some u"
  using assms by (simp add: findOne_def find_first)

lemma update_first:
  assumes "users s = pre @ u # post" and "\<forall>x \<in> set pre. user_id x \<noteq> user_id u"
  shows "update (user_id u) n e s =
     (Some \<lparr>user_id = user_id u, name = n, email = e\<rparr>,
      s\<lparr>users := pre @ \<lparr>user_id = user_id u, name = n, email = e\<rparr> # post\<rparr>)"
proof -
  have "findIndex (\<lambda>user. user_id user = user_id u) (users s) = int (length pre)"
    using assms by (simp add: findIndex_first)
  then show ?thesis using assms(1) by (simp add: update_def Let_def)
qed

lemma remove_first:
  assumes "users s = pre @ u # post" and "\<forall>x \<in> set pre. user_id x \<noteq> user_id u"
  shows "remove (user_id u) s = (True, s\<lparr>users := pre @ post\<rparr>)"
proof -
  have "findIndex (\<lambda>user. user_id user = user_id u) (users s) = int (length pre)"
    using assms by (simp add: findIndex_first)
  then show ?thesis using assms(1) by (simp add: remove_def Let_def array_splice_one)
qed

text \<open>
  \<open>remove\<close> either finds no record and changes nothing, or works at the first record
  with the id.
\<close>

lemma remove_absent: "i \<notin> user_id ` set (users s) \<Longrightarrow> remove i s = (False, s)"
  by (simp add: remove_def findIndex_absent)

lemma remove_cases:
  "(i \<notin> user_id ` set (users s) \<and> remove i s = (False, s)) \<or>
   (\<exists>pre u post. users s = pre @ u # post \<and> user_id u = i
      \<and> (\<forall>x \<in> set pre. user_id x \<noteq> i) \<and> remove i s = (True, s\<lparr>users := pre @ post\<rparr>))"
proof (cases "i \<in> user_id ` set (users s)")
  case False
  then show ?thesis by (simp add: remove_absent)
next
  case True
  then obtain pre u post where
    sp: "users s = pre @ u # post" and u: "user_id u = i"
    and pre: "\<forall>x \<in> set pre. user_id x \<noteq> i"
    using present_split by blast
  have "remove i s = (True, s\<lparr>users := pre @ post\<rparr>)"
    using remove_first [of s pre u post] sp u pre by simp
  with sp u pre show ?thesis by blast
qed

lemma remove_present:
  assumes "i \<in> user_id ` set (users s)"
  shows "fst (remove i s) = True \<and> Suc (length (users (snd (remove i s)))) = length (users s)"
  using remove_cases [of i s] assms by auto

lemma remove_then_findOne_distinct:
  assumes "distinct (map user_id (users s))"
  shows "findOne i (snd (remove i s)) = None"
proof -
  from remove_cases [of i s] show ?thesis
  proof
    assume "i \<notin> user_id ` set (users s) \<and> remove i s = (False, s)"
    then show ?thesis by (simp add: findOne_def find_absent)
  next
    assume "\<exists>pre u post. users s = pre @ u # post \<and> user_id u = i
      \<and> (\<forall>x \<in> set pre. user_id x \<noteq> i) \<and> remove i s = (True, s\<lparr>users := pre @ post\<rparr>)"
    then obtain pre u post where sp: "users s = pre @ u # post" and u: "user_id u = i"
      and r: "remove i s = (True, s\<lparr>users := pre @ post\<rparr>)" by blast
    from assms sp u have "i \<notin> user_id ` set (pre @ post)" by auto
    with r show ?thesis by (simp add: findOne_def find_absent)
  qed
qed

subsection \<open>Creations in a row\<close>

lemma run_snoc: "run (cs @ [c]) = exec (run cs) c"
  by (simp add: run_def)

lemma users_after_creates:
  "users (run (map (\<lambda>(n, e). Create n e) cs)) =
     map (\<lambda>(k, (n, e)). \<lparr>user_id = int k + 1, name = n, email = e\<rparr>) (enumerate 0 cs)"
proof (induction cs rule: rev_induct)
  case Nil
  show ?case by (simp add: run_def init_def)
next
  case (snoc c cs)
  obtain n e where c: "c = (n, e)" by (cases c)
  have "users (run (map (\<lambda>(n, e). Create n e) (cs @ [c]))) =
      users (run (map (\<lambda>(n, e). Create n e) cs)) @
        [\<lparr>user_id = int (length (users (run (map (\<lambda>(n, e). Create n e) cs)))) + 1,
          name = n, email = e\<rparr>]"
    by (simp add: c run_snoc create_def Let_def)
  then show ?case
    by (simp add: snoc.IH c enumerate_append_eq)
qed

section \<open>Auxiliary facts about the DTO variant\<close>

subsection \<open>Values and properties\<close>

lemma js_int_eq [simp]: "js_int a = js_int b \<longleftrightarrow> a = b"
  by (simp add: js_int_def)

lemma id_is_js_int: "id_is (js_int k) u \<longleftrightarrow> get_prop u ''id'' = js_int k"
  by (auto simp: id_is_def strict_equals_def js_int_def)

lemma id_is_same_id: "id_is i u \<Longrightarrow> id_is i x \<Longrightarrow> get_prop x ''id'' = get_prop u ''id''"
  by (simp add: id_is_def strict_equals_def)

lemma get_prop_add:
  "get_prop (u ++ d) p = (case d p of None \<Rightarrow> get_prop u p | Some v \<Rightarrow> v)"
  by (simp add: get_prop_def map_add_def split: option.splits)

subsection \<open>The first matching object\<close>

lemma update_dto_absent:
  "\<forall>u \<in> set (users_dto s). \<not> id_is i u \<Longrightarrow> update_dto i d s = (None, s)"
  by (simp add: update_dto_def findIndex_none)

lemma remove_dto_absent:
  "\<forall>u \<in> set (users_dto s). \<not> id_is i u \<Longrightarrow> remove_dto i s = (False, s)"
  by (simp add: remove_dto_def findIndex_none)

lemma findOne_dto_absent:
  "\<forall>u \<in> set (users_dto s). \<not> id_is i u \<Longrightarrow> findOne_dto i s = None"
  by (simp add: findOne_dto_def find_None_iff)

lemma update_dto_first:
  assumes "users_dto s = pre @ u # post" and "\<forall>x \<in> set pre. \<not> id_is i x" and "id_is i u"
  shows "update_dto i d s = (Some (u ++ d), s\<lparr>users_dto := pre @ (u ++ d) # post\<rparr>)"
proof -
  have "findIndex (id_is i) (users_dto s) = int (length pre)"
    using assms by (simp add: findIndex_first)
  then show ?thesis using assms(1) by (simp add: update_dto_def Let_def)
qed

lemma remove_dto_first:
  assumes "users_dto s = pre @ u # post" and "\<forall>x \<in> set pre. \<not> id_is i x" and "id_is i u"
  shows "remove_dto i s = (True, s\<lparr>users_dto := pre @ post\<rparr>)"
proof -
  have "findIndex (id_is i) (users_dto s) = int (length pre)"
    using assms by (simp add: findIndex_first)
  then show ?thesis using assms(1) by (simp add: remove_dto_def Let_def array_splice_one)
qed

lemma remove_dto_cases:
  "((\<forall>u \<in> set (users_dto s). \<not> id_is i u) \<and> remove_dto i s = (False, s)) \<or>
   (\<exists>pre u post. users_dto s = pre @ u # post \<and> id_is i u
      \<and> (\<forall>x \<in> set pre. \<not> id_is i x) \<and> remove_dto i s = (True, s\<lparr>users_dto := pre @ post\<rparr>))"
proof (cases "\<exists>u \<in> set (users_dto s). id_is i u")
  case False
  then show ?thesis by (simp add: remove_dto_absent)
next
  case True
  from first_match_split [of "users_dto s" "id_is i", OF True] obtain pre u post where
    sp: "users_dto s = pre @ u # post" and u: "id_is i u"
    and pre: "\<forall>x \<in> set pre. \<not> id_is i x"
    by blast
  have "remove_dto i s = (True, s\<lparr>users_dto := pre @ post\<rparr>)"
    using remove_dto_first [OF sp pre u] .
  with sp u pre show ?thesis by blast
qed

lemma update_dto_cases:
  "((\<forall>u \<in> set (users_dto s). \<not> id_is i u) \<and> update_dto i d s = (None, s)) \<or>
   (\<exists>pre u post. users_dto s = pre @ u # post \<and> id_is i u
      \<and> (\<forall>x \<in> set pre. \<not> id_is i x)
      \<and> update_dto i d s = (Some (u ++ d), s\<lparr>users_dto := pre @ (u ++ d) # post\<rparr>))"
proof (cases "\<exists>u \<in> set (users_dto s). id_is i u")
  case False
  then show ?thesis by (simp add: update_dto_absent)
next
  case True
  from first_match_split [of "users_dto s" "id_is i", OF True] obtain pre u post where
    sp: "users_dto s = pre @ u # post" and u: "id_is i u"
    and pre: "\<forall>x \<in> set pre. \<not> id_is i x"
    by blast
  have "update_dto i d s = (Some (u ++ d), s\<lparr>users_dto := pre @ (u ++ d) # post\<rparr>)"
    using update_dto_first [OF sp pre u] .
  with sp u pre show ?thesis by blast
qed

lemma remove_dto_then_findOne_distinct:
  assumes "distinct (map (\<lambda>u. get_prop u ''id'') (users_dto s))"
  shows "findOne_dto i (snd (remove_dto i s)) = None"
proof -
  from remove_dto_cases [of s i] show ?thesis
  proof
    assume "(\<forall>u \<in> set (users_dto s). \<not> id_is i u) \<and> remove_dto i s = (False, s)"
    then show ?thesis by (simp add: findOne_dto_absent)
  next
    assume "\<exists>pre u post. users_dto s = pre @ u # post \<and> id_is i u
      \<and> (\<forall>x \<in> set pre. \<not> id_is i x) \<and> remove_dto i s = (True, s\<lparr>users_dto := pre @ post\<rparr>)"
    then obtain pre u post where sp: "users_dto s = pre @ u # post" and u: "id_is i u"
      and r: "remove_dto i s = (True, s\<lparr>users_dto := pre @ post\<rparr>)" by blast
    have "\<not> id_is i x" if "x \<in> set (pre @ post)" for x
    proof
      assume "id_is i x"
      then have "get_prop x ''id'' = get_prop u ''id''" using u by (rule id_is_same_id [rotated])
      moreover have "get_prop u ''id'' \<notin> (\<lambda>u. get_prop u ''id'') ` set (pre @ post)"
        using assms sp by auto
      ultimately show False using that by (metis imageI)
    qed
    then have "\<forall>x \<in> set (users_dto (s\<lparr>users_dto := pre @ post\<rparr>)). \<not> id_is i x" by simp
    then have "findOne_dto i (s\<lparr>users_dto := pre @ post\<rparr>) = None" by (rule findOne_dto_absent)
    with r show ?thesis by simp
  qed
qed

subsection \<open>The counter\<close>

lemma post_increment_mono: "c \<le> post_increment c"
  by (simp add: post_increment_def)

lemma exec_dto_counter: "idCounter s \<le> idCounter (exec_dto s c)"
proof (cases c)
  case (CreateDto d)
  then show ?thesis by (simp add: create_dto_def Let_def post_increment_mono)
next
  case (UpdateDto i d)
  then show ?thesis using update_dto_cases [of s i d] by auto
next
  case (RemoveDto i)
  then show ?thesis using remove_dto_cases [of s i] by auto
qed simp_all

lemma exec_dto_counter_range:
  "1 \<le> idCounter s \<and> idCounter s \<le> 2 ^ 53 \<Longrightarrow>
     1 \<le> idCounter (exec_dto s c) \<and> idCounter (exec_dto s c) \<le> 2 ^ 53"
proof (cases c)
  case (CreateDto d)
  assume "1 \<le> idCounter s \<and> idCounter s \<le> 2 ^ 53"
  with CreateDto show ?thesis by (simp add: create_dto_def Let_def post_increment_def)
next
  case (UpdateDto i d)
  assume "1 \<le> idCounter s \<and> idCounter s \<le> 2 ^ 53"
  with UpdateDto show ?thesis using update_dto_cases [of s i d] by auto
next
  case (RemoveDto i)
  assume "1 \<le> idCounter s \<and> idCounter s \<le> 2 ^ 53"
  with RemoveDto show ?thesis using remove_dto_cases [of s i] by auto
qed simp_all

lemma run_dto_snoc: "run_dto (cs @ [c]) = exec_dto (run_dto cs) c"
  by (simp add: run_dto_def)

lemma idCounter_range: "1 \<le> idCounter (run_dto cs) \<and> idCounter (run_dto cs) \<le> 2 ^ 53"
proof (induction cs rule: rev_induct)
  case Nil
  show ?case by (simp add: run_dto_def init_dto_def)
next
  case (snoc c cs)
  then show ?case by (simp only: run_dto_snoc exec_dto_counter_range)
qed

lemma create_dto_stall:
  "idCounter s = 2 ^ 53 \<Longrightarrow> idCounter (snd (create_dto d s)) = 2 ^ 53"
  by (simp add: create_dto_def Let_def post_increment_def)

subsection \<open>Ids stay distinct while no DTO carries an id\<close>

text \<open>
  As long as no DTO passed to \<open>create\<close> or \<open>update\<close> has an own property \<open>id\<close>
  and the counter has not reached \<open>2 ^ 53\<close>, the stored ids are distinct integers
  below the counter, and the id of a new record is carried by no stored record.
\<close>

lemma create_dto_invariant:
  assumes "ids_below_counter s" and "d ''id'' = None" and "idCounter s < 2 ^ 53"
  shows "ids_below_counter (snd (create_dto d s))"
proof -
  have new: "get_prop ([''id'' \<mapsto> js_int (idCounter s)] ++ d) ''id'' = js_int (idCounter s)"
    using assms(2) by (simp add: get_prop_add) (simp add: get_prop_def)
  have old: "\<forall>u \<in> set (users_dto s). get_prop u ''id'' \<noteq> js_int (idCounter s)"
    using assms(1) by (auto simp: ids_below_counter_def)
  show ?thesis
    using assms new old
    by (auto simp: ids_below_counter_def create_dto_def Let_def post_increment_def)
qed

lemma update_dto_invariant:
  assumes "ids_below_counter s" and "d ''id'' = None"
  shows "ids_below_counter (snd (update_dto i d s))"
proof -
  have same: "get_prop (u ++ d) ''id'' = get_prop u ''id''" for u
    using assms(2) by (simp add: get_prop_add)
  from update_dto_cases [of s i d] assms(1) show ?thesis
    by (auto simp: ids_below_counter_def same)
qed

lemma remove_dto_invariant:
  "ids_below_counter s \<Longrightarrow> ids_below_counter (snd (remove_dto i s))"
  using remove_dto_cases [of s i]
  by (auto simp: ids_below_counter_def)

lemma exec_dto_invariant:
  "ids_below_counter s \<Longrightarrow> call_without_id c \<Longrightarrow> idCounter s < 2 ^ 53 \<Longrightarrow>
     ids_below_counter (exec_dto s c)"
  by (cases c) (simp_all add: create_dto_invariant update_dto_invariant remove_dto_invariant)

lemma ids_unique_without_dto_ids:
  "\<forall>c \<in> set cs. call_without_id c \<Longrightarrow> idCounter (run_dto cs) < 2 ^ 53 \<Longrightarrow>
     ids_below_counter (run_dto cs)"
proof (induction cs rule: rev_induct)
  case Nil
  show ?case by (simp add: run_dto_def init_dto_def ids_below_counter_def)
next
  case (snoc c cs)
  have "idCounter (run_dto cs) \<le> idCounter (run_dto (cs @ [c]))"
    by (simp add: run_dto_snoc exec_dto_counter)
  with snoc.prems(2) have below: "idCounter (run_dto cs) < 2 ^ 53" by simp
  with snoc have "ids_below_counter (run_dto cs)" by simp
  moreover have "call_without_id c" using snoc.prems(1) by simp
  ultimately show ?case using below by (simp add: run_dto_snoc exec_dto_invariant)
qed

lemma create_dto_fresh:
  assumes "ids_below_counter s" and "d ''id'' = None"
  shows "get_prop (fst (create_dto d s)) ''id'' \<notin> (\<lambda>u. get_prop u ''id'') ` set (users_dto s)"
proof -
  have "get_prop ([''id'' \<mapsto> js_int (idCounter s)] ++ d) ''id'' = js_int (idCounter s)"
    using assms(2) by (simp add: get_prop_add) (simp add: get_prop_def)
  moreover have "\<forall>u \<in> set (users_dto s). get_prop u ''id'' \<noteq> js_int (idCounter s)"
    using assms(1) by (auto simp: ids_below_counter_def)
  ultimately show ?thesis by (auto simp: create_dto_def Let_def)
qed

text \<open>
  A DTO passed to \<open>update\<close> that carries an id and a name that is \<open>undefined\<close>
  overwrites both in the stored record.
\<close>

lemma update_dto_id_and_undefined:
  "let s = run_dto [CreateDto (CreateUserDto ''Alice'' ''a@x.com''),
                    CreateDto (CreateUserDto ''Bob'' ''b@x.com'')];
       (result, s') = update_dto (js_int 2) [''id'' \<mapsto> js_int 1, ''name'' \<mapsto> JSUndefined] s
   in map (\<lambda>u. get_prop u ''id'') (findAll_dto s') = [js_int 1, js_int 1]
    \<and> map (\<lambda>u. get_prop u ''name'') (findAll_dto s') = [JSString ''Alice'', JSUndefined]
    \<and> map (\<lambda>u. get_prop u ''email'') (findAll_dto s')
         = [JSString ''a@x.com'', JSString ''b@x.com'']"
  by (simp add: dto_defs)

section \<open>The scenario of creation after a deletion\<close>

text \<open>
  Claim C1. On a fresh service, \<open>create("Alice","a@x.com")\<close> returns the record with
  id 1, \<open>create("Bob","b@x.com")\<close> the record with id 2, \<open>remove(1)\<close> returns true, and
  \<open>create("Carol","c@x.com")\<close> then returns a record with id 2 in the base variant, the
  id of Bob's record, which is still stored, and a record with id 3 in the DTO variant.
\<close>

theorem scenario_ids:
  "(let (alice, s1) = create ''Alice'' ''a@x.com'' init;
        (bob, s2) = create ''Bob'' ''b@x.com'' s1;
        (removed, s3) = remove 1 s2;
        (carol, s4) = create ''Carol'' ''c@x.com'' s3
    in alice = \<lparr>user_id = 1, name = ''Alice'', email = ''a@x.com''\<rparr>
     \<and> bob = \<lparr>user_id = 2, name = ''Bob'', email = ''b@x.com''\<rparr>
     \<and> removed = True
     \<and> carol = \<lparr>user_id = 2, name = ''Carol'', email = ''c@x.com''\<rparr>
     \<and> findAll s3 = [bob]
     \<and> findAll s4 = [bob, carol])
   \<and>
   (let (alice, t1) = create_dto (CreateUserDto ''Alice'' ''a@x.com'') init_dto;
        (bob, t2) = create_dto (CreateUserDto ''Bob'' ''b@x.com'') t1;
        (removed, t3) = remove_dto (js_int 1) t2;
        (carol, t4) = create_dto (CreateUserDto ''Carol'' ''c@x.com'') t3
    in alice = [''id'' \<mapsto> js_int 1, ''name'' \<mapsto> JSString ''Alice'', ''email'' \<mapsto> JSString ''a@x.com'']
     \<and> bob = [''id'' \<mapsto> js_int 2, ''name'' \<mapsto> JSString ''Bob'', ''email'' \<mapsto> JSString ''b@x.com'']
     \<and> removed = True
     \<and> carol = [''id'' \<mapsto> js_int 3, ''name'' \<mapsto> JSString ''Carol'', ''email'' \<mapsto> JSString ''c@x.com'']
     \<and> findAll_dto t3 = [bob]
     \<and> findAll_dto t4 = [bob, carol])"
  by (simp add: svc_defs dto_defs)

section \<open>Freshness of a new id\<close>

text \<open>
  Claim C2 says that the id \<open>create\<close> returns differs from the id of every record
  stored at the time of the call, in both variants. The DTO variant takes the id from
  its counter, which is fresh whenever the DTOs carry no id of their own (lemma
  \<open>create_dto_fresh\<close>). The base variant takes it from the length of the array: after
  Alice and Bob are created and Alice is removed, the store holds Bob's record with
  id 2, and creating Carol returns a record whose id is 2 again.
\<close>

theorem create_id_collision:
  "let s = run [Create ''Alice'' ''a@x.com'', Create ''Bob'' ''b@x.com'', Remove 1];
       (carol, s') = create ''Carol'' ''c@x.com'' s
   in findAll s = [\<lparr>user_id = 2, name = ''Bob'', email = ''b@x.com''\<rparr>]
    \<and> carol = \<lparr>user_id = 2, name = ''Carol'', email = ''c@x.com''\<rparr>
    \<and> user_id carol \<in> user_id ` set (users s)"
  by (simp add: svc_defs)

section \<open>Creation in the base variant\<close>

text \<open>
  Claim C3. In the base variant, for every state of the store and every name and email,
  \<open>create\<close> gives the new record the id "number of stored records plus one", appends
  the record with that id, that name and that email at the end of the sequence, and
  returns that record. \<open>create\<close> has no failing branch: it is a total function whose
  result is always a record and a state.
\<close>

theorem create_appends_length_id:
  "create n e s =
     (\<lparr>user_id = int (length (users s)) + 1, name = n, email = e\<rparr>,
      s\<lparr>users := users s @ [\<lparr>user_id = int (length (users s)) + 1, name = n, email = e\<rparr>]\<rparr>)
   \<and> user_id (fst (create n e s)) = int (length (findAll s)) + 1
   \<and> name (fst (create n e s)) = n
   \<and> email (fst (create n e s)) = e
   \<and> findAll (snd (create n e s)) = findAll s @ [fst (create n e s)]"
  by (simp add: create_def findAll_def Let_def)

section \<open>Removal\<close>

text \<open>
  Claim C4 says that \<open>remove\<close> of a stored id returns true, takes one record away and
  leaves \<open>findOne\<close> of that id absent, and that \<open>remove\<close> of an id not stored returns
  false and changes nothing. All of it holds while the stored ids are distinct (lemmas
  \<open>remove_present\<close>, \<open>remove_absent\<close>, \<open>remove_then_findOne_distinct\<close>, and
  \<open>remove_dto_then_findOne_distinct\<close> for the DTO variant). In the base variant the
  state after Alice, Bob, the removal of Alice, and Carol holds two records with id 2:
  there \<open>remove(2)\<close> returns true and takes one record away, and \<open>findOne(2)\<close>
  afterwards returns Carol's record.
\<close>

theorem remove_leaves_duplicate:
  "let s = run [Create ''Alice'' ''a@x.com'', Create ''Bob'' ''b@x.com'', Remove 1,
                Create ''Carol'' ''c@x.com''];
       (removed, s') = remove 2 s
   in findAll s = [\<lparr>user_id = 2, name = ''Bob'', email = ''b@x.com''\<rparr>,
                   \<lparr>user_id = 2, name = ''Carol'', email = ''c@x.com''\<rparr>]
    \<and> removed = True
    \<and> length (findAll s') = length (findAll s) - 1
    \<and> findOne 2 s' = Some \<lparr>user_id = 2, name = ''Carol'', email = ''c@x.com''\<rparr>"
  by (simp add: svc_defs)

section \<open>Ids that are not in the store\<close>

text \<open>
  Claim C5. For every state of the store and every id that no stored record carries,
  \<open>findOne\<close> returns the absent value, and \<open>update\<close> returns the absent value and
  the store it was given, so the number of records and the records are unchanged; this
  holds in the base variant and in the DTO variant (where an id \<open>j\<close> is carried by a
  record when the record's \<open>id\<close> property is \<open>===\<close> to it). No method has a raising
  branch: the results are plain values.
\<close>

theorem absent_id_not_found:
  "(i \<notin> user_id ` set (users s) \<longrightarrow>
      findOne i s = None \<and> update i n e s = (None, s))
   \<and> ((\<forall>u \<in> set (users_dto t). \<not> id_is j u) \<longrightarrow>
      findOne_dto j t = None \<and> update_dto j d t = (None, t))"
  by (simp add: findOne_def update_def findIndex_absent find_absent
      findOne_dto_absent update_dto_absent)

theorem absent_id_not_found_witness:
  "let s = run [Create ''Alice'' ''a@x.com'', Create ''Bob'' ''b@x.com''];
       t = run_dto [CreateDto (CreateUserDto ''Alice'' ''a@x.com'')];
       d = [''name'' \<mapsto> JSString ''Eve'']
   in 7 \<notin> user_id ` set (users s) \<and> findOne 7 s = None
    \<and> update 7 ''Eve'' ''e@x.com'' s = (None, s)
    \<and> length (users s) = 2
    \<and> length (users_dto t) = 1 \<and> \<not> id_is (js_int 7) (users_dto t ! 0)
    \<and> findOne_dto (js_int 7) t = None
    \<and> update_dto (js_int 7) d t = (None, t)"
  using absent_id_not_found [of 7 "run [Create ''Alice'' ''a@x.com'', Create ''Bob'' ''b@x.com'']"
      "''Eve''" "''e@x.com''"
      "run_dto [CreateDto (CreateUserDto ''Alice'' ''a@x.com'')]"
      "js_int 7" "[''name'' \<mapsto> JSString ''Eve'']"]
  by (simp add: svc_defs dto_defs)

section \<open>Update in the base variant\<close>

text \<open>
  Claim C6. In the base variant, when the store holds a record with the given id,
  \<open>update\<close> puts the record made of that id, the new name and the new email at the
  position \<open>k\<close> of the first record with that id, returns that new record, keeps the
  number of records, and leaves the record at every other position as it was.
\<close>

theorem update_replaces_in_place:
  "i \<in> user_id ` set (users s) \<longrightarrow>
     (\<exists>k < length (users s).
        user_id (users s ! k) = i \<and> (\<forall>j < k. user_id (users s ! j) \<noteq> i)
      \<and> update i n e s =
          (Some \<lparr>user_id = i, name = n, email = e\<rparr>,
           s\<lparr>users := (users s)[k := \<lparr>user_id = i, name = n, email = e\<rparr>]\<rparr>)
      \<and> length (users (snd (update i n e s))) = length (users s)
      \<and> users (snd (update i n e s)) ! k = \<lparr>user_id = i, name = n, email = e\<rparr>
      \<and> (\<forall>j < length (users s). j \<noteq> k \<longrightarrow>
            users (snd (update i n e s)) ! j = users s ! j))"
proof
  assume "i \<in> user_id ` set (users s)"
  then obtain pre u post where
    sp: "users s = pre @ u # post" and u: "user_id u = i"
    and pre: "\<forall>x \<in> set pre. user_id x \<noteq> i"
    using present_split by blast
  let ?new = "\<lparr>user_id = i, name = n, email = e\<rparr>"
  have upd: "update i n e s = (Some ?new, s\<lparr>users := pre @ ?new # post\<rparr>)"
    using update_first [of s pre u post n e] sp u pre by simp
  have k: "length pre < length (users s)" using sp by simp
  have at: "user_id (users s ! length pre) = i" using sp u by simp
  have before: "\<forall>j < length pre. user_id (users s ! j) \<noteq> i"
    using sp pre by (simp add: nth_append)
  have lu: "(users s)[length pre := ?new] = pre @ ?new # post" using sp by simp
  have frame: "\<forall>j < length (users s). j \<noteq> length pre \<longrightarrow>
      (pre @ ?new # post) ! j = users s ! j"
    using lu by (metis nth_list_update_neq)
  show "\<exists>k < length (users s).
        user_id (users s ! k) = i \<and> (\<forall>j < k. user_id (users s ! j) \<noteq> i)
      \<and> update i n e s = (Some ?new, s\<lparr>users := (users s)[k := ?new]\<rparr>)
      \<and> length (users (snd (update i n e s))) = length (users s)
      \<and> users (snd (update i n e s)) ! k = ?new
      \<and> (\<forall>j < length (users s). j \<noteq> k \<longrightarrow>
            users (snd (update i n e s)) ! j = users s ! j)"
  proof (intro exI [of _ "length pre"] conjI)
    show "length pre < length (users s)" by (rule k)
    show "user_id (users s ! length pre) = i" by (rule at)
    show "\<forall>j < length pre. user_id (users s ! j) \<noteq> i" by (rule before)
    show "update i n e s = (Some ?new, s\<lparr>users := (users s)[length pre := ?new]\<rparr>)"
      using upd lu by simp
    show "length (users (snd (update i n e s))) = length (users s)"
      using upd sp by simp
    show "users (snd (update i n e s)) ! length pre = ?new"
      using upd by simp
    show "\<forall>j < length (users s). j \<noteq> length pre \<longrightarrow>
            users (snd (update i n e s)) ! j = users s ! j"
      using upd frame by simp
  qed
qed

theorem update_replaces_in_place_witness:
  "let s = run [Create ''Alice'' ''a@x.com'', Create ''Bob'' ''b@x.com'', Create ''Carol'' ''c@x.com''];
       alice = \<lparr>user_id = 1, name = ''Alice'', email = ''a@x.com''\<rparr>;
       bob = \<lparr>user_id = 2, name = ''Bob'', email = ''b@x.com''\<rparr>;
       carol = \<lparr>user_id = 3, name = ''Carol'', email = ''c@x.com''\<rparr>;
       robert = \<lparr>user_id = 2, name = ''Robert'', email = ''r@x.com''\<rparr>
   in users s = [alice, bob, carol]
    \<and> 2 \<in> user_id ` set (users s)
    \<and> update 2 ''Robert'' ''r@x.com'' s = (Some robert, \<lparr>users = [alice, robert, carol]\<rparr>)
    \<and> (\<exists>k < length (users s). user_id (users s ! k) = 2
          \<and> users (snd (update 2 ''Robert'' ''r@x.com'' s)) ! k = robert)"
proof -
  let ?s = "run [Create ''Alice'' ''a@x.com'', Create ''Bob'' ''b@x.com'', Create ''Carol'' ''c@x.com'']"
  have present: "2 \<in> user_id ` set (users ?s)" by (simp add: svc_defs)
  from update_replaces_in_place [of 2 ?s "''Robert''" "''r@x.com''"] present
  have "\<exists>k < length (users ?s). user_id (users ?s ! k) = 2
          \<and> users (snd (update 2 ''Robert'' ''r@x.com'' ?s)) ! k
              = \<lparr>user_id = 2, name = ''Robert'', email = ''r@x.com''\<rparr>"
    by blast
  moreover have "users ?s = [\<lparr>user_id = 1, name = ''Alice'', email = ''a@x.com''\<rparr>,
       \<lparr>user_id = 2, name = ''Bob'', email = ''b@x.com''\<rparr>,
       \<lparr>user_id = 3, name = ''Carol'', email = ''c@x.com''\<rparr>]"
    by (simp add: svc_defs)
  moreover have "update 2 ''Robert'' ''r@x.com'' ?s =
      (Some \<lparr>user_id = 2, name = ''Robert'', email = ''r@x.com''\<rparr>,
       \<lparr>users = [\<lparr>user_id = 1, name = ''Alice'', email = ''a@x.com''\<rparr>,
          \<lparr>user_id = 2, name = ''Robert'', email = ''r@x.com''\<rparr>,
          \<lparr>user_id = 3, name = ''Carol'', email = ''c@x.com''\<rparr>]\<rparr>)"
    by (simp add: svc_defs)
  ultimately show ?thesis using present by (simp only: Let_def)
qed

section \<open>Update in the DTO variant\<close>

text \<open>
  Claim C7. In the DTO variant, when the store holds a record with the given id,
  \<open>update\<close> merges the DTO into the first record with that id, at its position \<open>k\<close>,
  property by property: in the merged record \<open>m\<close> every property \<open>p\<close> the DTO has
  takes the DTO's value, and every property the DTO omits is as in the stored record;
  \<open>m\<close> is returned and stands at position \<open>k\<close>, and every other position, the number
  of records and the counter are unchanged.
\<close>

theorem update_dto_merges_in_place:
  "(\<exists>u \<in> set (users_dto s). id_is i u) \<longrightarrow>
     (\<exists>k < length (users_dto s). \<exists>m.
        id_is i (users_dto s ! k) \<and> (\<forall>j < k. \<not> id_is i (users_dto s ! j))
      \<and> update_dto i d s = (Some m, s\<lparr>users_dto := (users_dto s)[k := m]\<rparr>)
      \<and> (\<forall>p v. d p = Some v \<longrightarrow> m p = Some v)
      \<and> (\<forall>p. d p = None \<longrightarrow> m p = (users_dto s ! k) p)
      \<and> length (users_dto (snd (update_dto i d s))) = length (users_dto s)
      \<and> users_dto (snd (update_dto i d s)) ! k = m
      \<and> (\<forall>j < length (users_dto s). j \<noteq> k \<longrightarrow>
            users_dto (snd (update_dto i d s)) ! j = users_dto s ! j)
      \<and> idCounter (snd (update_dto i d s)) = idCounter s)"
proof
  assume present: "\<exists>u \<in> set (users_dto s). id_is i u"
  from first_match_split [of "users_dto s" "id_is i", OF present] obtain pre u post where
    sp: "users_dto s = pre @ u # post" and u: "id_is i u"
    and pre: "\<forall>x \<in> set pre. \<not> id_is i x"
    by blast
  let ?m = "u ++ d"
  let ?k = "length pre"
  have upd: "update_dto i d s = (Some ?m, s\<lparr>users_dto := pre @ ?m # post\<rparr>)"
    using update_dto_first [OF sp pre u] .
  have old: "users_dto s ! ?k = u" using sp by simp
  have lu: "(users_dto s)[?k := ?m] = pre @ ?m # post" using sp by simp
  have frame: "\<forall>j < length (users_dto s). j \<noteq> ?k \<longrightarrow> (pre @ ?m # post) ! j = users_dto s ! j"
    using lu by (metis nth_list_update_neq)
  have "?k < length (users_dto s)" using sp by simp
  moreover have "id_is i (users_dto s ! ?k)" using old u by simp
  moreover have "\<forall>j < ?k. \<not> id_is i (users_dto s ! j)"
    using sp pre by (simp add: nth_append)
  moreover have "update_dto i d s = (Some ?m, s\<lparr>users_dto := (users_dto s)[?k := ?m]\<rparr>)"
    using upd lu by simp
  moreover have "\<forall>p v. d p = Some v \<longrightarrow> ?m p = Some v"
    by (simp add: map_add_def)
  moreover have "\<forall>p. d p = None \<longrightarrow> ?m p = (users_dto s ! ?k) p"
    using old by (simp add: map_add_def)
  moreover have "length (users_dto (snd (update_dto i d s))) = length (users_dto s)"
    using upd sp by simp
  moreover have "users_dto (snd (update_dto i d s)) ! ?k = ?m"
    using upd by simp
  moreover have "\<forall>j < length (users_dto s). j \<noteq> ?k \<longrightarrow>
      users_dto (snd (update_dto i d s)) ! j = users_dto s ! j"
    using upd frame by simp
  moreover have "idCounter (snd (update_dto i d s)) = idCounter s"
    using upd by simp
  ultimately show "\<exists>k < length (users_dto s). \<exists>m.
        id_is i (users_dto s ! k) \<and> (\<forall>j < k. \<not> id_is i (users_dto s ! j))
      \<and> update_dto i d s = (Some m, s\<lparr>users_dto := (users_dto s)[k := m]\<rparr>)
      \<and> (\<forall>p v. d p = Some v \<longrightarrow> m p = Some v)
      \<and> (\<forall>p. d p = None \<longrightarrow> m p = (users_dto s ! k) p)
      \<and> length (users_dto (snd (update_dto i d s))) = length (users_dto s)
      \<and> users_dto (snd (update_dto i d s)) ! k = m
      \<and> (\<forall>j < length (users_dto s). j \<noteq> k \<longrightarrow>
            users_dto (snd (update_dto i d s)) ! j = users_dto s ! j)
      \<and> idCounter (snd (update_dto i d s)) = idCounter s"
    by (intro exI [of _ ?k] conjI exI [of _ ?m])
qed

theorem update_dto_merges_in_place_witness:
  "let s = run_dto [CreateDto (CreateUserDto ''Alice'' ''a@x.com''),
                    CreateDto (CreateUserDto ''Bob'' ''b@x.com''),
                    CreateDto (CreateUserDto ''Carol'' ''c@x.com'')];
       d = [''email'' \<mapsto> JSString ''bob@y.org''];
       (result, s') = update_dto (js_int 2) d s
   in id_is (js_int 2) (users_dto s ! 1)
    \<and> result = Some [''id'' \<mapsto> js_int 2, ''name'' \<mapsto> JSString ''Bob'',
                      ''email'' \<mapsto> JSString ''bob@y.org'']
    \<and> map (\<lambda>u. get_prop u ''name'') (findAll_dto s')
         = [JSString ''Alice'', JSString ''Bob'', JSString ''Carol'']
    \<and> map (\<lambda>u. get_prop u ''email'') (findAll_dto s')
         = [JSString ''a@x.com'', JSString ''bob@y.org'', JSString ''c@x.com'']
    \<and> map (\<lambda>u. get_prop u ''id'') (findAll_dto s') = [js_int 1, js_int 2, js_int 3]
    \<and> idCounter s' = 4"
  using update_dto_merges_in_place [of
     "run_dto [CreateDto (CreateUserDto ''Alice'' ''a@x.com''),
               CreateDto (CreateUserDto ''Bob'' ''b@x.com''),
               CreateDto (CreateUserDto ''Carol'' ''c@x.com'')]"
     "js_int 2" "[''email'' \<mapsto> JSString ''bob@y.org'']"]
  by (simp add: dto_defs)

section \<open>Uniqueness of ids in the DTO variant\<close>

text \<open>
  Claim C8 says that in the DTO variant no reachable state holds two records with the
  same id, because the ids come from a counter that never decreases. The counter indeed
  never decreases (lemma \<open>exec_dto_counter\<close>), and the ids are distinct as long as no
  DTO carries an id of its own and the counter is below \<open>2 ^ 53\<close> (lemma
  \<open>ids_unique_without_dto_ids\<close>). But \<open>create\<close> spreads its DTO after the counter's
  value: after Alice is created, creating Mallory from a DTO that carries \<open>id: 1\<close>
  stores a second record with id 1, while the counter goes on to 3.
\<close>

theorem create_dto_id_from_dto:
  "let s = run_dto [CreateDto (CreateUserDto ''Alice'' ''a@x.com''),
                    CreateDto ((CreateUserDto ''Mallory'' ''m@x.com'')(''id'' \<mapsto> js_int 1))]
   in map (\<lambda>u. get_prop u ''id'') (findAll_dto s) = [js_int 1, js_int 1]
    \<and> map (\<lambda>u. get_prop u ''name'') (findAll_dto s) = [JSString ''Alice'', JSString ''Mallory'']
    \<and> \<not> distinct (map (\<lambda>u. get_prop u ''id'') (findAll_dto s))
    \<and> idCounter s = 3"
  by (simp add: dto_defs)

section \<open>Listing after creations\<close>

text \<open>
  Claim C9. Starting from the empty store, after the creations \<open>cs\<close> and nothing else
  (a list of \<open>n\<close> pairs of a name and an email), \<open>findAll\<close> returns exactly \<open>n\<close>
  records in the order of creation: the record at position \<open>k\<close> has id \<open>k + 1\<close> and
  the name and email of the \<open>k\<close>-th creation, and it is the record that creation
  returned.
\<close>

theorem findAll_after_creates:
  "findAll (run (map (\<lambda>(n, e). Create n e) cs)) =
     map (\<lambda>(k, (n, e)). \<lparr>user_id = int k + 1, name = n, email = e\<rparr>) (enumerate 0 cs)
   \<and> length (findAll (run (map (\<lambda>(n, e). Create n e) cs))) = length cs
   \<and> (\<forall>k < length cs.
        findAll (run (map (\<lambda>(n, e). Create n e) cs)) ! k =
          fst (create (fst (cs ! k)) (snd (cs ! k))
                 (run (map (\<lambda>(n, e). Create n e) (take k cs)))))"
proof -
  let ?mk = "\<lambda>(k, (n, e)). \<lparr>user_id = int k + 1, name = n, email = e\<rparr>"
  have all: "findAll (run (map (\<lambda>(n, e). Create n e) cs)) = map ?mk (enumerate 0 cs)"
    by (simp add: findAll_def users_after_creates)
  have len: "length (findAll (run (map (\<lambda>(n, e). Create n e) cs))) = length cs"
    by (simp add: all)
  have kth: "findAll (run (map (\<lambda>(n, e). Create n e) cs)) ! k =
          fst (create (fst (cs ! k)) (snd (cs ! k))
                 (run (map (\<lambda>(n, e). Create n e) (take k cs))))" if "k < length cs" for k
  proof -
    have "length (users (run (map (\<lambda>(n, e). Create n e) (take k cs)))) = k"
      using that by (simp add: users_after_creates)
    then have "fst (create (fst (cs ! k)) (snd (cs ! k))
                 (run (map (\<lambda>(n, e). Create n e) (take k cs))))
        = \<lparr>user_id = int k + 1, name = fst (cs ! k), email = snd (cs ! k)\<rparr>"
      by (simp add: create_def Let_def)
    moreover have "map ?mk (enumerate 0 cs) ! k
        = \<lparr>user_id = int k + 1, name = fst (cs ! k), email = snd (cs ! k)\<rparr>"
      using that by (simp add: nth_enumerate_eq case_prod_beta)
    ultimately show ?thesis using all by simp
  qed
  from all len kth show ?thesis by blast
qed

theorem findAll_after_creates_witness:
  "let cs = [(''Alice'', ''a@x.com''), (''Bob'', ''b@x.com''), (''Carol'', ''c@x.com'')];
       s = run (map (\<lambda>(n, e). Create n e) cs)
   in findAll s = [\<lparr>user_id = 1, name = ''Alice'', email = ''a@x.com''\<rparr>,
                   \<lparr>user_id = 2, name = ''Bob'', email = ''b@x.com''\<rparr>,
                   \<lparr>user_id = 3, name = ''Carol'', email = ''c@x.com''\<rparr>]
    \<and> length (findAll s) = 3
    \<and> findAll s ! 1 = fst (create ''Bob'' ''b@x.com'' (run [Create ''Alice'' ''a@x.com'']))"
  using findAll_after_creates [of "[(''Alice'', ''a@x.com''), (''Bob'', ''b@x.com''), (''Carol'', ''c@x.com'')]"]
  by (simp add: svc_defs)

section \<open>Records that share an id\<close>

text \<open>
  Claim C10. In the base variant, when a record \<open>u\<close> is the earliest one with its id
  (no record before it has that id, while records after it may), \<open>findOne\<close> returns
  \<open>u\<close>, \<open>update\<close> replaces \<open>u\<close> alone and \<open>remove\<close> deletes \<open>u\<close> alone: the
  records before and after it, those with the same id included, stay as they are.
\<close>

theorem first_match_only:
  "users s = pre @ u # post \<and> (\<forall>x \<in> set pre. user_id x \<noteq> user_id u) \<longrightarrow>
     findOne (user_id u) s = Some u
     \<and> update (user_id u) n e s =
         (Some \<lparr>user_id = user_id u, name = n, email = e\<rparr>,
          s\<lparr>users := pre @ \<lparr>user_id = user_id u, name = n, email = e\<rparr> # post\<rparr>)
     \<and> remove (user_id u) s = (True, s\<lparr>users := pre @ post\<rparr>)"
  by (simp add: findOne_first update_first remove_first)

theorem first_match_only_witness:
  "let s = run [Create ''Alice'' ''a@x.com'', Create ''Bob'' ''b@x.com'', Create ''Carol'' ''c@x.com'',
                Remove 1, Create ''Dave'' ''d@x.com''];
       bob = \<lparr>user_id = 2, name = ''Bob'', email = ''b@x.com''\<rparr>;
       carol = \<lparr>user_id = 3, name = ''Carol'', email = ''c@x.com''\<rparr>;
       dave = \<lparr>user_id = 3, name = ''Dave'', email = ''d@x.com''\<rparr>;
       eve = \<lparr>user_id = 3, name = ''Eve'', email = ''e@x.com''\<rparr>
   in users s = [bob] @ carol # [dave]
    \<and> user_id bob \<noteq> user_id carol
    \<and> findOne 3 s = Some carol
    \<and> update 3 ''Eve'' ''e@x.com'' s = (Some eve, \<lparr>users = [bob, eve, dave]\<rparr>)
    \<and> remove 3 s = (True, \<lparr>users = [bob, dave]\<rparr>)"
  using first_match_only [of
      "run [Create ''Alice'' ''a@x.com'', Create ''Bob'' ''b@x.com'', Create ''Carol'' ''c@x.com'',
            Remove 1, Create ''Dave'' ''d@x.com'']"
      "[\<lparr>user_id = 2, name = ''Bob'', email = ''b@x.com''\<rparr>]"
      "\<lparr>user_id = 3, name = ''Carol'', email = ''c@x.com''\<rparr>"
      "[\<lparr>user_id = 3, name = ''Dave'', email = ''d@x.com''\<rparr>]"
      "''Eve''" "''e@x.com''"]
  by (simp add: svc_defs)

end
